theory Spec2Isabelle
  imports Complex_Main
begin

section \<open>JavaScript numbers\<close>

text \<open>
  A JavaScript Number is an IEEE 754 binary64 value. The finite ones are rationals, and
  every arithmetic operation returns the exact result rounded to the nearest value with a
  53-bit significand, ties to the even significand. The numbers of this program are counts
  of array elements, their square roots, quotients of those and short sums of such
  quotients, so the exponent range of binary64 is never left: the exponent is not bounded
  below, and infinities and NaN are not part of the model.
\<close>

type_synonym number = rat

text \<open>The number of binary digits of a positive integer.\<close>

function bits :: "int \<Rightarrow> int" where
  "bits n = (if n \<le> 0 then 0 else 1 + bits (n div 2))"
  by pat_completeness auto
termination
  by (relation "measure nat") auto

declare bits.simps [simp del]

text \<open>The integer nearest to \<open>n / d\<close> for \<open>d > 0\<close>, a tie going to the even one.\<close>

definition nearest_even :: "int \<Rightarrow> int \<Rightarrow> int" where
  "nearest_even n d =
     (let m = n div d; r = n mod d
      in if d < 2 * r \<or> (2 * r = d \<and> odd m) then m + 1 else m)"

text \<open>
  Rounding of a rational to binary64: the magnitude \<open>a / q\<close> is scaled by a power of two
  into the interval from \<open>2^52\<close> (included) to \<open>2^53\<close> (excluded), rounded to an integer
  there and scaled back.
\<close>

definition rnd :: "rat \<Rightarrow> number" where
  "rnd x =
     (case quotient_of x of (p, q) \<Rightarrow>
        if p = 0 then 0
        else
          let a = \<bar>p\<bar>;
              s = 53 - (bits a - bits q);
              n = a * 2 ^ nat s;
              d = q * 2 ^ nat (- s);
              up = (2 ^ 53 * d \<le> n);
              d' = (if up then 2 * d else d);
              s' = (if up then s - 1 else s)
          in of_int (sgn p * nearest_even n d') * power_int 2 (- s'))"

definition fl_add :: "number \<Rightarrow> number \<Rightarrow> number" where
  "fl_add x y = rnd (x + y)"

definition fl_sub :: "number \<Rightarrow> number \<Rightarrow> number" where
  "fl_sub x y = rnd (x - y)"

definition fl_mul :: "number \<Rightarrow> number \<Rightarrow> number" where
  "fl_mul x y = rnd (x * y)"

text \<open>\<open>x / y\<close> for \<open>y \<noteq> 0\<close>; the program divides only behind a test of the divisor.\<close>

definition fl_div :: "number \<Rightarrow> number \<Rightarrow> number" where
  "fl_div x y = rnd (x / y)"

text \<open>The largest integer whose square is at most \<open>n\<close>.\<close>

function isqrt :: "int \<Rightarrow> int" where
  "isqrt n =
     (if n < 4 then (if n \<le> 0 then 0 else 1)
      else (let r = 2 * isqrt (n div 4) in if (r + 1) * (r + 1) \<le> n then r + 1 else r))"
  by pat_completeness auto
termination
  by (relation "measure nat") auto

declare isqrt.simps [simp del]

text \<open>
  \<open>Math.sqrt\<close> on a number that is not negative: the square root, rounded as above.
  The argument is scaled by a power of four into the interval from \<open>2^104\<close> to \<open>2^106\<close>,
  so that its integer square root has 53 bits, and the neighbour of that root is taken where
  the argument lies above the square of the midpoint.
\<close>

definition Math_sqrt :: "number \<Rightarrow> number" where
  "Math_sqrt x =
     (case quotient_of x of (p, q) \<Rightarrow>
        if p \<le> 0 then 0
        else
          let k0 = (105 - (bits p - bits q)) div 2;
              k = (if p * 4 ^ nat k0 < 2 ^ 104 * (q * 4 ^ nat (- k0)) then k0 + 1 else k0);
              n = p * 4 ^ nat k;
              d = q * 4 ^ nat (- k);
              m = isqrt (n div d);
              c = (2 * m + 1) * (2 * m + 1) * d;
              m' = (if c < 4 * n \<or> (c = 4 * n \<and> odd m) then m + 1 else m)
          in of_int m' * power_int 2 (- k))"

section \<open>Values read from an object\<close>

text \<open>
  \<open>mockData.userLikes[userId]\<close> reads a property of an object literal with a key the caller
  chooses. The value is an array of post ids for a key of the literal; for a key that the
  literal does not have, the property is looked up in \<open>Object.prototype\<close>, which answers
  with a function (of some declared \<open>length\<close>) for the names of its methods, with
  \<open>Object.prototype\<close> itself for \<open>__proto__\<close>, and with \<open>undefined\<close> for every other key.
\<close>

datatype jsval = Arr "string list" | Fun nat | Obj | Undefined

datatype error = TypeError

definition Object_prototype :: "(string \<times> jsval) list" where
  "Object_prototype =
     [(''constructor'', Fun 1),
      (''__defineGetter__'', Fun 2),
      (''__defineSetter__'', Fun 2),
      (''hasOwnProperty'', Fun 1),
      (''__lookupGetter__'', Fun 1),
      (''__lookupSetter__'', Fun 1),
      (''isPrototypeOf'', Fun 1),
      (''propertyIsEnumerable'', Fun 1),
      (''toString'', Fun 0),
      (''valueOf'', Fun 0),
      (''__proto__'', Obj),
      (''toLocaleString'', Fun 0)]"

text \<open>\<open>obj[key]\<close> for an object literal with the given own properties.\<close>

definition get_property :: "(string \<times> string list) list \<Rightarrow> string \<Rightarrow> jsval" where
  "get_property own key =
     (case map_of own key of
        Some xs \<Rightarrow> Arr xs
      | None \<Rightarrow> (case map_of Object_prototype key of Some v \<Rightarrow> v | None \<Rightarrow> Undefined))"

text \<open>\<open>v || d\<close>: of the values above only \<open>undefined\<close> is falsy.\<close>

definition or_else :: "jsval \<Rightarrow> jsval \<Rightarrow> jsval" where
  "or_else v d = (if v = Undefined then d else v)"

text \<open>\<open>v.length\<close>; \<open>None\<close> is \<open>undefined\<close>.\<close>

fun length_of :: "jsval \<Rightarrow> nat option" where
  "length_of (Arr xs) = Some (length xs)"
| "length_of (Fun n) = Some n"
| "length_of Obj = None"
| "length_of Undefined = None"

text \<open>\<open>[...v]\<close>: only an array is iterable.\<close>

fun spread :: "jsval \<Rightarrow> error + string list" where
  "spread (Arr xs) = Inr xs"
| "spread v = Inl TypeError"

text \<open>A \<open>Set\<close> keeps its elements in the order of their first insertion.\<close>

definition Set_add :: "'a list \<Rightarrow> 'a \<Rightarrow> 'a list" where
  "Set_add s x = (if x \<in> set s then s else s @ [x])"

definition new_Set :: "'a list \<Rightarrow> 'a list" where
  "new_Set xs = foldl Set_add [] xs"

section \<open>calculateUserSimilarity\<close>

text \<open>
  The loop over the two vectors; the entries are 0 and 1, and the three accumulators are
  integers far below \<open>2^53\<close>, which binary64 holds exactly.
\<close>

fun accumulate :: "(nat \<times> nat) list \<Rightarrow> nat \<times> nat \<times> nat \<Rightarrow> nat \<times> nat \<times> nat" where
  "accumulate [] acc = acc"
| "accumulate ((u, v) # rest) (dotProduct, userMagnitude, otherUserMagnitude) =
     accumulate rest
       (dotProduct + u * v, userMagnitude + u * u, otherUserMagnitude + v * v)"

definition calculateUserSimilarity :: "jsval \<Rightarrow> jsval \<Rightarrow> error + number" where
  "calculateUserSimilarity userLikes otherUserLikes =
     (case spread userLikes of
        Inl e \<Rightarrow> Inl e
      | Inr ul \<Rightarrow>
          (case spread otherUserLikes of
             Inl e \<Rightarrow> Inl e
           | Inr ol \<Rightarrow>
               (let allPosts = new_Set (ul @ ol)
                in if length allPosts = 0 then Inr 0
                   else
                     let userVector = map (\<lambda>postId. if postId \<in> set ul then 1 else 0) allPosts;
                         otherUserVector = map (\<lambda>postId. if postId \<in> set ol then 1 else 0) allPosts
                     in (case accumulate (zip userVector otherUserVector) (0, 0, 0) of
                           (dotProduct, userMagnitude, otherUserMagnitude) \<Rightarrow>
                             let magnitude = fl_mul (Math_sqrt (of_nat userMagnitude))
                                                    (Math_sqrt (of_nat otherUserMagnitude))
                             in if magnitude = 0 then Inr 0
                                else Inr (fl_div (of_nat dotProduct) magnitude)))))"


section \<open>The mock interaction store\<close>

record business =
  business_id :: string
  business_name :: string
  category :: string

text \<open>
  The three object literals of \<open>mockData\<close>, each as the list of its own properties in the
  order the literal writes them, which is the order \<open>Object.entries\<close> and
  \<open>Object.values\<close> enumerate (no key is an array index).
\<close>

record mock_data =
  userLikes :: "(string \<times> string list) list"
  postBusinessMap :: "(string \<times> string) list"
  businesses :: "(string \<times> business) list"

definition mockData :: mock_data where
  "mockData =
     \<lparr>userLikes =
        [(''user_1'', [''post_1'', ''post_2'', ''post_3'', ''post_5'']),
         (''user_2'', [''post_2'', ''post_3'', ''post_4'', ''post_6'']),
         (''user_3'', [''post_1'', ''post_4'', ''post_7'', ''post_8'']),
         (''user_4'', [''post_2'', ''post_5'', ''post_6'', ''post_9''])],
      postBusinessMap =
        [(''post_1'', ''business_1''),
         (''post_2'', ''business_2''),
         (''post_3'', ''business_1''),
         (''post_4'', ''business_3''),
         (''post_5'', ''business_2''),
         (''post_6'', ''business_3''),
         (''post_7'', ''business_4''),
         (''post_8'', ''business_4''),
         (''post_9'', ''business_5'')],
      businesses =
        [(''business_1'',
            \<lparr>business_id = ''business_1'', business_name = ''Coffee Shop A'',
             category = ''Food & Drink''\<rparr>),
         (''business_2'',
            \<lparr>business_id = ''business_2'', business_name = ''Restaurant B'',
             category = ''Food & Drink''\<rparr>),
         (''business_3'',
            \<lparr>business_id = ''business_3'', business_name = ''Gym C'',
             category = ''Fitness''\<rparr>),
         (''business_4'',
            \<lparr>business_id = ''business_4'', business_name = ''Salon D'',
             category = ''Beauty''\<rparr>),
         (''business_5'',
            \<lparr>business_id = ''business_5'', business_name = ''Bookstore E'',
             category = ''Retail''\<rparr>)]\<rparr>"

section \<open>getRecommendations\<close>

record similar_user =
  userId :: string
  similarity :: number
  sharedLikes :: nat

record scored_business =
  business :: "business option"
  score :: number
  recommendedPosts :: "string list"

record potential_friend =
  friend_userId :: string
  similarityScore :: number
  sharedInterests :: nat

record recommended_business =
  recommended :: "business option"
  recommendationScore :: number
  reason :: string

text \<open>
  The returned object. The early return writes \<open>message\<close> and neither \<open>algorithm\<close> nor
  \<open>totalSimilarUsers\<close>; the final return writes those two and no \<open>message\<close>.
\<close>

record recommendations =
  potentialFriends :: "potential_friend list"
  recommendedBusinesses :: "recommended_business list"
  message :: "string option"
  algorithm :: "string option"
  totalSimilarUsers :: "nat option"

text \<open>
  \<open>v.includes(x)\<close> and \<open>v.filter(f)\<close>: methods of an array. The functions and the
  prototype object of the model have no such property, and the call of \<open>undefined\<close>
  throws.
\<close>

fun includes_of :: "jsval \<Rightarrow> string \<Rightarrow> error + bool" where
  "includes_of (Arr xs) x = Inr (x \<in> set xs)"
| "includes_of v x = Inl TypeError"

fun filter_of :: "jsval \<Rightarrow> (string \<Rightarrow> bool) \<Rightarrow> error + string list" where
  "filter_of (Arr xs) f = Inr (filter f xs)"
| "filter_of v f = Inl TypeError"

text \<open>
  \<open>Array.prototype.sort\<close> with a comparator: a stable sort, so that elements the
  comparator does not separate keep their order. An element goes before the first element
  of the sorted rest that the comparator does not put before it.
\<close>

fun insert_sorted :: "('a \<Rightarrow> 'a \<Rightarrow> number) \<Rightarrow> 'a \<Rightarrow> 'a list \<Rightarrow> 'a list" where
  "insert_sorted cmp x [] = [x]"
| "insert_sorted cmp x (y # ys) =
     (if cmp x y \<le> 0 then x # y # ys else y # insert_sorted cmp x ys)"

definition Array_sort :: "('a \<Rightarrow> 'a \<Rightarrow> number) \<Rightarrow> 'a list \<Rightarrow> 'a list" where
  "Array_sort cmp xs = foldr (insert_sorted cmp) xs []"

text \<open>The decimal digits of a number, as a template literal prints it.\<close>

function string_of_nat :: "nat \<Rightarrow> string" where
  "string_of_nat n =
     (if n < 10 then [char_of (48 + n)]
      else string_of_nat (n div 10) @ [char_of (48 + n mod 10)])"
  by pat_completeness auto
termination
  by (relation "measure id") auto

declare string_of_nat.simps [simp del]

text \<open>The loop over \<open>Object.entries(mockData.userLikes)\<close> that fills \<open>userSimilarities\<close>.\<close>

fun similarity_loop ::
  "jsval \<Rightarrow> string \<Rightarrow> (string \<times> string list) list \<Rightarrow> similar_user list
     \<Rightarrow> error + similar_user list" where
  "similarity_loop currentUserLikes uid [] userSimilarities = Inr userSimilarities"
| "similarity_loop currentUserLikes uid ((otherUserId, otherUserLikes) # rest) userSimilarities =
     (if otherUserId = uid then similarity_loop currentUserLikes uid rest userSimilarities
      else
        (case calculateUserSimilarity currentUserLikes (Arr otherUserLikes) of
           Inl e \<Rightarrow> Inl e
         | Inr sim \<Rightarrow>
             if 0 < sim then
               (case filter_of currentUserLikes (\<lambda>like. like \<in> set otherUserLikes) of
                  Inl e \<Rightarrow> Inl e
                | Inr shared \<Rightarrow>
                    similarity_loop currentUserLikes uid rest
                      (userSimilarities @
                         [\<lparr>userId = otherUserId, similarity = sim,
                           sharedLikes = length shared\<rparr>]))
             else similarity_loop currentUserLikes uid rest userSimilarities))"

text \<open>
  The state of the second loop: the set \<open>recommendedPostIds\<close> and the object
  \<open>postScores\<close>. A score that is missing or 0 is set to 0 before the similarity is added.
\<close>

type_synonym post_state = "string list \<times> (string \<rightharpoonup> number)"

fun post_loop_inner ::
  "jsval \<Rightarrow> number \<Rightarrow> string list \<Rightarrow> post_state \<Rightarrow> error + post_state" where
  "post_loop_inner currentUserLikes sim [] st = Inr st"
| "post_loop_inner currentUserLikes sim (postId # rest) (recommendedPostIds, postScores) =
     (case includes_of currentUserLikes postId of
        Inl e \<Rightarrow> Inl e
      | Inr liked \<Rightarrow>
          if \<not> liked then
            post_loop_inner currentUserLikes sim rest
              (Set_add recommendedPostIds postId,
               postScores(postId \<mapsto>
                 fl_add (case postScores postId of None \<Rightarrow> 0 | Some v \<Rightarrow> v) sim))
          else post_loop_inner currentUserLikes sim rest (recommendedPostIds, postScores))"

fun post_loop :: "jsval \<Rightarrow> similar_user list \<Rightarrow> post_state \<Rightarrow> error + post_state" where
  "post_loop currentUserLikes [] st = Inr st"
| "post_loop currentUserLikes (similarUser # rest) st =
     (case spread (get_property (userLikes mockData) (userId similarUser)) of
        Inl e \<Rightarrow> Inl e
      | Inr similarUserLikes \<Rightarrow>
          (case post_loop_inner currentUserLikes (similarity similarUser) similarUserLikes st of
             Inl e \<Rightarrow> Inl e
           | Inr st' \<Rightarrow> post_loop currentUserLikes rest st'))"

text \<open>
  The third loop, over the set \<open>recommendedPostIds\<close>, fills \<open>businessScores\<close>, an object
  whose properties keep the order of their creation. Every post id of the set has a score
  (\<open>post_loop_scored\<close> below), so the default of the lookup is never used.
\<close>

fun business_loop ::
  "string list \<Rightarrow> (string \<rightharpoonup> number) \<Rightarrow> (string \<times> scored_business) list
     \<Rightarrow> (string \<times> scored_business) list" where
  "business_loop [] postScores businessScores = businessScores"
| "business_loop (postId # rest) postScores businessScores =
     (case map_of (postBusinessMap mockData) postId of
        None \<Rightarrow> business_loop rest postScores businessScores
      | Some businessId \<Rightarrow>
          if businessId = [] then business_loop rest postScores businessScores
          else
            let created =
                  (if map_of businessScores businessId = None
                   then businessScores @
                          [(businessId,
                            \<lparr>business = map_of (businesses mockData) businessId,
                             score = 0, recommendedPosts = []\<rparr>)]
                   else businessScores);
                added =
                  map (\<lambda>(k, item).
                         if k = businessId
                         then (k, item\<lparr>score :=
                                         fl_add (score item)
                                           (case postScores postId of None \<Rightarrow> 0 | Some v \<Rightarrow> v),
                                       recommendedPosts := recommendedPosts item @ [postId]\<rparr>)
                         else (k, item))
                      created
            in business_loop rest postScores added)"

definition no_likes :: recommendations where
  "no_likes =
     \<lparr>potentialFriends = [], recommendedBusinesses = [],
      message = Some ''No likes found for user. Start liking posts to get recommendations!'',
      algorithm = None, totalSimilarUsers = None\<rparr>"

text \<open>\<open>mockData.userLikes[userId] || []\<close>\<close>

definition likes_of :: "string \<Rightarrow> jsval" where
  "likes_of uid = or_else (get_property (userLikes mockData) uid) (Arr [])"

text \<open>The two comparators and the two \<open>map\<close> callbacks.\<close>

definition by_similarity :: "similar_user \<Rightarrow> similar_user \<Rightarrow> number" where
  "by_similarity a b = fl_sub (similarity b) (similarity a)"

definition by_score :: "scored_business \<Rightarrow> scored_business \<Rightarrow> number" where
  "by_score a b = fl_sub (score b) (score a)"

definition friend_of :: "similar_user \<Rightarrow> potential_friend" where
  "friend_of user =
     \<lparr>friend_userId = userId user, similarityScore = similarity user,
      sharedInterests = sharedLikes user\<rparr>"

definition recommended_of :: "scored_business \<Rightarrow> recommended_business" where
  "recommended_of item =
     \<lparr>recommended = business item, recommendationScore = score item,
      reason = ''Liked by '' @ string_of_nat (length (recommendedPosts item)) @
               '' similar user(s)''\<rparr>"

definition getRecommendations :: "string \<Rightarrow> error + recommendations" where
  "getRecommendations uid =
     (let currentUserLikes = likes_of uid
      in if length_of currentUserLikes = Some 0 then Inr no_likes
         else
           (case similarity_loop currentUserLikes uid (userLikes mockData) [] of
              Inl e \<Rightarrow> Inl e
            | Inr userSimilarities \<Rightarrow>
                let topSimilarUsers = take 10 (Array_sort by_similarity userSimilarities)
                in (case post_loop currentUserLikes topSimilarUsers ([], Map.empty) of
                      Inl e \<Rightarrow> Inl e
                    | Inr (recommendedPostIds, postScores) \<Rightarrow>
                        let businessScores = business_loop recommendedPostIds postScores [];
                            recommendedBusinesses =
                              map recommended_of (Array_sort by_score (map snd businessScores))
                        in Inr \<lparr>potentialFriends = map friend_of topSimilarUsers,
                                recommendedBusinesses = take 20 recommendedBusinesses,
                                message = None,
                                algorithm = Some ''collaborative_filtering'',
                                totalSimilarUsers = Some (length userSimilarities)\<rparr>)))"

section \<open>Notions of the specification\<close>

text \<open>
  The cosine of two binary vectors with \<open>a\<close> and \<open>b\<close> ones of which \<open>shared\<close> are in the
  same places, in the arithmetic of the program.
\<close>

definition cosine :: "nat \<Rightarrow> nat \<Rightarrow> nat \<Rightarrow> number" where
  "cosine shared a b =
     (let magnitude = fl_mul (Math_sqrt (of_nat a)) (Math_sqrt (of_nat b))
      in if magnitude = 0 then 0 else fl_div (of_nat shared) magnitude)"

text \<open>The similarity of two like-sets, both arrays.\<close>

definition similarity_of :: "string list \<Rightarrow> string list \<Rightarrow> number" where
  "similarity_of A B =
     (case calculateUserSimilarity (Arr A) (Arr B) of Inr sim \<Rightarrow> sim | Inl e \<Rightarrow> 0)"

text \<open>
  The other users with a similarity strictly greater than 0, in the order of the store:
  the users the specification retains before it sorts and truncates.
\<close>

definition similar_others :: "string list \<Rightarrow> string \<Rightarrow> (string \<times> string list) list" where
  "similar_others likes uid =
     filter (\<lambda>(otherUserId, otherUserLikes).
               otherUserId \<noteq> uid \<and> 0 < similarity_of likes otherUserLikes)
       (userLikes mockData)"

text \<open>The entry that the first loop pushes for a retained user.\<close>

definition entry_of :: "string list \<Rightarrow> string \<times> string list \<Rightarrow> similar_user" where
  "entry_of likes e =
     \<lparr>userId = fst e, similarity = similarity_of likes (snd e),
      sharedLikes = length (filter (\<lambda>like. like \<in> set (snd e)) likes)\<rparr>"

text \<open>
  The contributions to the score of a post: the similarity score of a similar user once for
  each time the post occurs among the likes that the store holds for that user, in the order
  of the similar users.
\<close>

definition stored_likes :: "string \<Rightarrow> string list" where
  "stored_likes k = (case map_of (userLikes mockData) k of Some xs \<Rightarrow> xs | None \<Rightarrow> [])"

definition contributions :: "similar_user list \<Rightarrow> string \<Rightarrow> number list" where
  "contributions users postId =
     concat (map (\<lambda>u. replicate (count_list (stored_likes (userId u)) postId) (similarity u))
               users)"

text \<open>The score of a post in \<open>postScores\<close>, 0 for a post without one.\<close>

definition score_in :: "(string \<rightharpoonup> number) \<Rightarrow> string \<Rightarrow> number" where
  "score_in postScores postId = (case postScores postId of None \<Rightarrow> 0 | Some v \<Rightarrow> v)"

text \<open>What a call returns, \<open>None\<close> for a call that throws.\<close>

definition returned :: "error + 'a \<Rightarrow> 'a option" where
  "returned x = (case x of Inl e \<Rightarrow> None | Inr r \<Rightarrow> Some r)"

text \<open>The listed friends with their scores and the recommended businesses with theirs.\<close>

definition friend_scores :: "recommendations \<Rightarrow> (string \<times> number) list" where
  "friend_scores r = map (\<lambda>f. (friend_userId f, similarityScore f)) (potentialFriends r)"

definition business_scores :: "recommendations \<Rightarrow> (string option \<times> number) list" where
  "business_scores r =
     map (\<lambda>b. (map_option business_id (recommended b), recommendationScore b))
       (recommendedBusinesses r)"

text \<open>
  The expectation of the specification for \<open>user_1\<close> on the fixture: \<open>user_2\<close> has a
  strictly greater similarity than \<open>user_3\<close> and than \<open>user_4\<close>, and \<open>business_1\<close> and
  \<open>business_2\<close> are recommended, at an earlier place than \<open>business_4\<close> and \<open>business_5\<close>.
\<close>

definition place :: "'a list \<Rightarrow> 'a \<Rightarrow> nat" where
  "place xs x = length (takeWhile (\<lambda>y. y \<noteq> x) xs)"

definition ranked_above :: "'a list \<Rightarrow> 'a \<Rightarrow> 'a \<Rightarrow> bool" where
  "ranked_above xs a b \<longleftrightarrow> a \<in> set xs \<and> place xs a < place xs b"

definition fixture_expectation :: "recommendations \<Rightarrow> bool" where
  "fixture_expectation r \<longleftrightarrow>
     (case (map_of (friend_scores r) ''user_2'', map_of (friend_scores r) ''user_3'',
            map_of (friend_scores r) ''user_4'') of
        (Some s2, Some s3, Some s4) \<Rightarrow> s3 < s2 \<and> s4 < s2
      | _ \<Rightarrow> False) \<and>
     (let ids = map fst (business_scores r)
      in ranked_above ids (Some ''business_1'') (Some ''business_4'') \<and>
         ranked_above ids (Some ''business_1'') (Some ''business_5'') \<and>
         ranked_above ids (Some ''business_2'') (Some ''business_4'') \<and>
         ranked_above ids (Some ''business_2'') (Some ''business_5''))"

text \<open>The object that \<open>getRecommendations('user_1')\<close> returns (\<open>user_1_returns\<close> below).\<close>

definition user_1_result :: recommendations where
  "user_1_result =
     \<lparr>potentialFriends =
        [\<lparr>friend_userId = ''user_2'', similarityScore = 1 / 2, sharedInterests = 2\<rparr>,
         \<lparr>friend_userId = ''user_4'', similarityScore = 1 / 2, sharedInterests = 2\<rparr>,
         \<lparr>friend_userId = ''user_3'', similarityScore = 1 / 4, sharedInterests = 1\<rparr>],
      recommendedBusinesses =
        [\<lparr>recommended = Some \<lparr>business_id = ''business_3'', business_name = ''Gym C'',
                                category = ''Fitness''\<rparr>,
          recommendationScore = 7 / 4, reason = ''Liked by 2 similar user(s)''\<rparr>,
         \<lparr>recommended = Some \<lparr>business_id = ''business_5'', business_name = ''Bookstore E'',
                                category = ''Retail''\<rparr>,
          recommendationScore = 1 / 2, reason = ''Liked by 1 similar user(s)''\<rparr>,
         \<lparr>recommended = Some \<lparr>business_id = ''business_4'', business_name = ''Salon D'',
                                category = ''Beauty''\<rparr>,
          recommendationScore = 1 / 2, reason = ''Liked by 2 similar user(s)''\<rparr>],
      message = None, algorithm = Some ''collaborative_filtering'',
      totalSimilarUsers = Some 3\<rparr>"

section \<open>Rounding keeps the sign\<close>

lemma bits_nonneg: "0 \<le> bits n"
proof (induction n rule: bits.induct)
  case (1 n)
  then show ?case by (subst bits.simps) auto
qed

lemma bits_bounds: "0 < n \<Longrightarrow> 2 ^ nat (bits n - 1) \<le> n \<and> n < 2 ^ nat (bits n)"
proof (induction n rule: bits.induct)
  case (1 n)
  show ?case
  proof (cases "n = 1")
    case True
    have "bits 1 = 1" by (simp add: bits.simps[of 1] bits.simps[of 0])
    with True show ?thesis by simp
  next
    case False
    with 1 have h: "0 < n div 2" by simp
    from 1 have IH: "2 ^ nat (bits (n div 2) - 1) \<le> n div 2 \<and> n div 2 < 2 ^ nat (bits (n div 2))"
      using h by simp
    have b: "bits n = 1 + bits (n div 2)" using 1(2) by (subst bits.simps) simp
    have bp: "1 \<le> bits (n div 2)" using bits_nonneg[of "n div 2"] h
      by (subst bits.simps) (simp add: bits_nonneg)
    have e1: "nat (bits n - 1) = Suc (nat (bits (n div 2) - 1))" using b bp by simp
    have e2: "nat (bits n) = Suc (nat (bits (n div 2)))" using b bp by simp
    show ?thesis unfolding e1 e2 using IH by simp linarith
  qed
qed


lemma nearest_even_pos: "0 < d \<Longrightarrow> d \<le> n \<Longrightarrow> 1 \<le> nearest_even n d"
proof -
  assume d: "0 < d" and n: "d \<le> n"
  have "0 < n div d" using d n by (simp add: pos_imp_zdiv_pos_iff)
  then show ?thesis by (simp add: nearest_even_def Let_def)
qed

lemma scaled_ge:
  assumes a: "0 < a" and q: "0 < q" and s: "s = 53 - (bits a - bits q)"
  shows "q * 2 ^ nat (- s) \<le> a * 2 ^ nat s"
proof -
  from bits_bounds[OF a] have a1: "2 ^ nat (bits a - 1) \<le> a" by simp
  from bits_bounds[OF q] have q1: "q < 2 ^ nat (bits q)" by simp
  have ba: "1 \<le> bits a" using a bits_nonneg[of "a div 2"] by (subst bits.simps) simp
  have bq: "1 \<le> bits q" using q bits_nonneg[of "q div 2"] by (subst bits.simps) simp
  have "q * 2 ^ nat (- s) \<le> 2 ^ nat (bits q) * 2 ^ nat (- s)"
    using q1 by (simp add: mult_right_mono)
  also have "\<dots> = (2::int) ^ (nat (bits q) + nat (- s))" by (simp add: power_add)
  also have "\<dots> \<le> 2 ^ (nat (bits a - 1) + nat s)"
    by (rule power_increasing) (use s ba bq in auto)
  also have "\<dots> = 2 ^ nat (bits a - 1) * 2 ^ nat s" by (simp add: power_add)
  also have "\<dots> \<le> a * 2 ^ nat s" using a1 by (simp add: mult_right_mono)
  finally show ?thesis .
qed

lemma rnd_sgn: "sgn (rnd x) = sgn x"
proof -
  obtain p q where pq: "quotient_of x = (p, q)" by (cases "quotient_of x")
  have q: "0 < q" using pq by (rule quotient_of_denom_pos)
  have x: "x = of_int p / of_int q" using pq by (rule quotient_of_div)
  show ?thesis
  proof (cases "p = 0")
    case True
    then show ?thesis using x pq by (simp add: rnd_def)
  next
    case False
    define a where "a = \<bar>p\<bar>"
    define s where "s = 53 - (bits a - bits q)"
    define n where "n = a * 2 ^ nat s"
    define d where "d = q * 2 ^ nat (- s)"
    define d' where "d' = (if 2 ^ 53 * d \<le> n then 2 * d else d)"
    define s' where "s' = (if 2 ^ 53 * d \<le> n then s - 1 else s)"
    have a: "0 < a" using False by (simp add: a_def)
    have dn: "d \<le> n" unfolding d_def n_def by (rule scaled_ge[OF a q s_def])
    have dpos: "0 < d" using q by (simp add: d_def)
    have d': "0 < d' \<and> d' \<le> n" using dn dpos by (auto simp: d'_def)
    have ne: "1 \<le> nearest_even n d'" using d' by (simp add: nearest_even_pos)
    have r: "rnd x = of_int (sgn p * nearest_even n d') * power_int 2 (- s')"
      using pq False
      by (simp add: rnd_def Let_def a_def s_def n_def d_def d'_def s'_def)
    have "sgn (rnd x) = sgn (of_int (sgn p * nearest_even n d') :: rat)"
      unfolding r by (simp add: sgn_mult)
    also have "\<dots> = of_int (sgn p)" using ne by (simp add: sgn_mult sgn_if)
    also have "\<dots> = sgn x" using q unfolding x by (simp add: sgn_if zero_less_divide_iff divide_less_0_iff)
    finally show ?thesis .
  qed
qed

lemma rnd_le_0_iff: "rnd x \<le> 0 \<longleftrightarrow> x \<le> 0"
  using rnd_sgn[of x] by (simp add: sgn_if split: if_splits)

lemma rnd_pos_iff: "0 < rnd x \<longleftrightarrow> 0 < x"
  using rnd_le_0_iff[of x] by auto

lemma rnd_eq_0_iff: "rnd x = 0 \<longleftrightarrow> x = 0"
  using rnd_sgn[of x] by (simp add: sgn_if split: if_splits)


section \<open>The similarity of two arrays\<close>

lemma foldl_Set_add:
  "distinct acc \<Longrightarrow>
     distinct (foldl Set_add acc xs) \<and> set (foldl Set_add acc xs) = set acc \<union> set xs"
  by (induction xs arbitrary: acc) (auto simp: Set_add_def)

lemma new_Set_distinct: "distinct (new_Set xs)"
  using foldl_Set_add[of "[]" xs] by (simp add: new_Set_def)

lemma new_Set_set: "set (new_Set xs) = set xs"
  using foldl_Set_add[of "[]" xs] by (simp add: new_Set_def)

lemma new_Set_Nil_iff: "new_Set xs = [] \<longleftrightarrow> xs = []"
  using new_Set_set[of xs] by (metis set_empty)

lemma accumulate_indicators:
  "accumulate (zip (map (\<lambda>p. if P p then 1 else 0) ps) (map (\<lambda>p. if Q p then 1 else 0) ps))
       (d, u, v) =
     (d + length (filter (\<lambda>p. P p \<and> Q p) ps), u + length (filter P ps),
      v + length (filter Q ps))"
  by (induction ps arbitrary: d u v) auto

lemma card_filter_new_Set: "length (filter P (new_Set xs)) = card {x \<in> set xs. P x}"
proof -
  have s: "set (filter P (new_Set xs)) = {x \<in> set xs. P x}"
    by (auto simp: new_Set_set)
  have "distinct (filter P (new_Set xs))"
    by (simp add: new_Set_distinct)
  then have "card (set (filter P (new_Set xs))) = length (filter P (new_Set xs))"
    by (rule distinct_card)
  with s show ?thesis by simp
qed

lemma calculateUserSimilarity_arrays:
  "calculateUserSimilarity (Arr A) (Arr B) =
     Inr (if A = [] \<and> B = [] then 0
          else cosine (card (set A \<inter> set B)) (card (set A)) (card (set B)))"
proof (cases "A = [] \<and> B = []")
  case True
  then show ?thesis by (simp add: calculateUserSimilarity_def new_Set_def)
next
  case False
  then have ne: "new_Set (A @ B) \<noteq> []" by (simp add: new_Set_Nil_iff)
  have i: "{x \<in> set (A @ B). x \<in> set A \<and> x \<in> set B} = set A \<inter> set B" by auto
  have a: "{x \<in> set (A @ B). x \<in> set A} = set A" by auto
  have b: "{x \<in> set (A @ B). x \<in> set B} = set B" by auto
  show ?thesis using False ne
    by (auto simp add: calculateUserSimilarity_def Let_def accumulate_indicators
        card_filter_new_Set i a b cosine_def simp del: set_append)
qed

text \<open>
  C3. The similarity is symmetric: for all like-sets \<open>A\<close> and \<open>B\<close>, arrays of post ids with
  or without repetitions, \<open>calculateUserSimilarity(A, B)\<close> and
  \<open>calculateUserSimilarity(B, A)\<close> are the same number.
\<close>

theorem similarity_symmetric:
  "calculateUserSimilarity (Arr A) (Arr B) = calculateUserSimilarity (Arr B) (Arr A)"
  by (auto simp: calculateUserSimilarity_arrays cosine_def fl_mul_def Int_commute mult.commute)

section \<open>The lower bound and the zero cases of the similarity\<close>

text \<open>
  The rounded square root of a positive number is positive, and rounding keeps the sign, so
  the similarity of two arrays is never negative and is 0 exactly when they share no post
  (which includes the cases of an empty array, where the function returns 0 before it
  divides).
\<close>

lemma isqrt_pos: "1 \<le> n \<Longrightarrow> 1 \<le> isqrt n"
proof (induction n rule: isqrt.induct)
  case (1 n)
  show ?case
  proof (cases "n < 4")
    case True
    with 1(2) show ?thesis by (subst isqrt.simps) simp
  next
    case False
    then have "1 \<le> n div 4" by simp
    with 1(1) False have "1 \<le> isqrt (n div 4)" by simp
    with False show ?thesis by (subst isqrt.simps) (simp add: Let_def)
  qed
qed

lemma bits_ge_1: "0 < n \<Longrightarrow> 1 \<le> bits n"
  using bits_nonneg[of "n div 2"] by (subst bits.simps) simp

lemma scaled4_ge:
  assumes p: "0 < p" and q: "0 < q" and k: "bits q - bits p + 1 \<le> 2 * k"
  shows "q * 4 ^ nat (- k) \<le> p * 4 ^ nat k"
proof -
  from bits_bounds[OF p] have p1: "2 ^ nat (bits p - 1) \<le> p" by simp
  from bits_bounds[OF q] have q1: "q < 2 ^ nat (bits q)" by simp
  have four: "\<And>n. (4::int) ^ n = 2 ^ (2 * n)" by (simp add: power_mult)
  have "q * 4 ^ nat (- k) \<le> 2 ^ nat (bits q) * 4 ^ nat (- k)"
    using q1 by (simp add: mult_right_mono)
  also have "\<dots> = (2::int) ^ (nat (bits q) + 2 * nat (- k))"
    by (simp add: four power_add)
  also have "\<dots> \<le> 2 ^ (nat (bits p - 1) + 2 * nat k)"
    by (rule power_increasing) (use k bits_ge_1[OF p] bits_ge_1[OF q] in auto)
  also have "\<dots> = 2 ^ nat (bits p - 1) * 4 ^ nat k"
    by (simp add: four power_add)
  also have "\<dots> \<le> p * 4 ^ nat k" using p1 by (simp add: mult_right_mono)
  finally show ?thesis .
qed

lemma Math_sqrt_pos: "0 < x \<Longrightarrow> 0 < Math_sqrt x"
proof -
  assume x: "0 < x"
  obtain p q where pq: "quotient_of x = (p, q)" by (cases "quotient_of x")
  have q: "0 < q" using pq by (rule quotient_of_denom_pos)
  have "x = of_int p / of_int q" using pq by (rule quotient_of_div)
  with x q have p: "0 < p" by (simp add: zero_less_divide_iff)
  define k0 where "k0 = (105 - (bits p - bits q)) div 2"
  define k where
    "k = (if p * 4 ^ nat k0 < 2 ^ 104 * (q * 4 ^ nat (- k0)) then k0 + 1 else k0)"
  define n where "n = p * 4 ^ nat k"
  define d where "d = q * 4 ^ nat (- k)"
  define m where "m = isqrt (n div d)"
  define m' where
    "m' = (if (2 * m + 1) * (2 * m + 1) * d < 4 * n \<or>
              ((2 * m + 1) * (2 * m + 1) * d = 4 * n \<and> odd m) then m + 1 else m)"
  have d: "0 < d" using q by (simp add: d_def)
  have dn: "d \<le> n"
  proof (cases "p * 4 ^ nat k0 < 2 ^ 104 * (q * 4 ^ nat (- k0))")
    case True
    then have kk: "k = k0 + 1" by (simp add: k_def)
    have "bits q - bits p + 1 \<le> 2 * k" unfolding kk k0_def by presburger
    from scaled4_ge[OF p q this] show ?thesis by (simp add: d_def n_def)
  next
    case False
    then have kk: "k = k0" by (simp add: k_def)
    from False have "2 ^ 104 * (q * 4 ^ nat (- k0)) \<le> p * 4 ^ nat k0"
      by (simp only: not_less)
    then have "2 ^ 104 * d \<le> n" unfolding d_def n_def kk .
    moreover have "1 * d \<le> 2 ^ 104 * d"
      by (rule mult_right_mono) (use d in simp_all)
    ultimately show ?thesis by (simp only: mult_1 order_trans)
  qed
  have "0 < n div d" using d dn by (simp add: pos_imp_zdiv_pos_iff)
  then have "1 \<le> m" unfolding m_def by (intro isqrt_pos) simp
  then have m': "0 < m'" by (simp add: m'_def)
  have np: "\<not> p \<le> 0" using p by simp
  have "Math_sqrt x = of_int m' * power_int 2 (- k)"
    unfolding m'_def m_def d_def n_def k_def k0_def
    by (simp only: Math_sqrt_def pq prod.case np if_False Let_def)
  then show ?thesis using m' by (simp add: zero_less_mult_iff)
qed

lemma Math_sqrt_nonpos: "x \<le> 0 \<Longrightarrow> Math_sqrt x = 0"
proof -
  assume x: "x \<le> 0"
  obtain p q where pq: "quotient_of x = (p, q)" by (cases "quotient_of x")
  have q: "0 < q" using pq by (rule quotient_of_denom_pos)
  have "x = of_int p / of_int q" using pq by (rule quotient_of_div)
  with x q have "p \<le> 0" by (simp add: divide_le_0_iff)
  with pq show ?thesis by (simp add: Math_sqrt_def)
qed

lemma Math_sqrt_of_nat_eq_0_iff: "Math_sqrt (of_nat a) = 0 \<longleftrightarrow> a = 0"
  using Math_sqrt_pos[of "of_nat a"] Math_sqrt_nonpos[of "of_nat a"] by (cases "a = 0") auto

lemma rnd_nonneg_iff: "0 \<le> rnd x \<longleftrightarrow> 0 \<le> x"
  using rnd_pos_iff[of x] rnd_eq_0_iff[of x] by (auto simp: le_less)

lemma cosine_eq_0_iff: "cosine s a b = 0 \<longleftrightarrow> s = 0 \<or> a = 0 \<or> b = 0"
  by (auto simp: cosine_def Let_def fl_mul_def fl_div_def rnd_eq_0_iff
        Math_sqrt_of_nat_eq_0_iff)

lemma cosine_nonneg: "0 \<le> cosine s a b"
proof -
  have "0 \<le> Math_sqrt (of_nat a)" "0 \<le> Math_sqrt (of_nat b)"
    using Math_sqrt_pos[of "of_nat a"] Math_sqrt_nonpos[of "of_nat a"]
      Math_sqrt_pos[of "of_nat b"] Math_sqrt_nonpos[of "of_nat b"]
    by (cases "a = 0"; cases "b = 0"; force)+
  then have "0 \<le> fl_mul (Math_sqrt (of_nat a)) (Math_sqrt (of_nat b))"
    by (simp add: fl_mul_def rnd_nonneg_iff)
  then show ?thesis
    by (simp add: cosine_def Let_def fl_div_def rnd_nonneg_iff)
qed

lemma similarity_nonneg: "0 \<le> similarity_of A B"
  by (simp add: similarity_of_def calculateUserSimilarity_arrays cosine_nonneg)

lemma similarity_zero_iff: "similarity_of A B = 0 \<longleftrightarrow> set A \<inter> set B = {}"
proof (cases "A = [] \<and> B = []")
  case True
  then show ?thesis by (simp add: similarity_of_def calculateUserSimilarity_arrays)
next
  case False
  have "similarity_of A B = cosine (card (set A \<inter> set B)) (card (set A)) (card (set B))"
    using False by (auto simp: similarity_of_def calculateUserSimilarity_arrays)
  then show ?thesis by (auto simp: cosine_eq_0_iff)
qed

section \<open>Sorting and the first loop\<close>

lemma set_insert_sorted: "set (insert_sorted cmp x ys) = insert x (set ys)"
  by (induction ys) auto

lemma length_insert_sorted: "length (insert_sorted cmp x ys) = Suc (length ys)"
  by (induction ys) auto

lemma set_Array_sort: "set (Array_sort cmp xs) = set xs"
  by (induction xs) (auto simp: Array_sort_def set_insert_sorted)

lemma length_Array_sort: "length (Array_sort cmp xs) = length xs"
  by (induction xs) (auto simp: Array_sort_def length_insert_sorted)

lemma sorted_insert_sorted:
  assumes cmp: "\<And>a b. cmp a b \<le> 0 \<longleftrightarrow> key b \<le> (key a :: rat)"
  shows "sorted_wrt (\<lambda>a b. key b \<le> key a) ys \<Longrightarrow>
         sorted_wrt (\<lambda>a b. key b \<le> key a) (insert_sorted cmp x ys)"
proof (induction ys)
  case Nil
  then show ?case by simp
next
  case (Cons y ys)
  show ?case
  proof (cases "cmp x y \<le> 0")
    case True
    then have "key y \<le> key x" by (simp add: cmp)
    with Cons.prems True show ?thesis by auto
  next
    case False
    then have "key x \<le> key y" using cmp[of x y] by simp
    with Cons False show ?thesis by (auto simp: set_insert_sorted)
  qed
qed

lemma sorted_Array_sort:
  assumes cmp: "\<And>a b. cmp a b \<le> 0 \<longleftrightarrow> key b \<le> (key a :: rat)"
  shows "sorted_wrt (\<lambda>a b. key b \<le> key a) (Array_sort cmp xs)"
proof (induction xs)
  case Nil
  then show ?case by (simp add: Array_sort_def)
next
  case (Cons x xs)
  have "Array_sort cmp (x # xs) = insert_sorted cmp x (Array_sort cmp xs)"
    by (simp add: Array_sort_def)
  with Cons sorted_insert_sorted[of cmp key, OF cmp] show ?case by simp
qed

lemma by_similarity_le: "by_similarity a b \<le> 0 \<longleftrightarrow> similarity b \<le> similarity a"
  by (simp add: by_similarity_def fl_sub_def rnd_le_0_iff)

lemma by_score_le: "by_score a b \<le> 0 \<longleftrightarrow> score b \<le> score a"
  by (simp add: by_score_def fl_sub_def rnd_le_0_iff)

lemma sorted_wrt_take: "sorted_wrt R xs \<Longrightarrow> sorted_wrt R (take n xs)"
  by (induction xs arbitrary: n) (auto simp: take_Cons split: nat.splits dest: in_set_takeD)

lemma friends_sorted:
  "sorted_wrt (\<lambda>a b. similarityScore b \<le> similarityScore a)
     (map friend_of (take n (Array_sort by_similarity xs)))"
proof -
  have "sorted_wrt (\<lambda>a b. similarity b \<le> similarity a) (take n (Array_sort by_similarity xs))"
    by (rule sorted_wrt_take) (rule sorted_Array_sort, rule by_similarity_le)
  then show ?thesis by (simp add: sorted_wrt_map friend_of_def)
qed

lemma businesses_sorted:
  "sorted_wrt (\<lambda>a b. recommendationScore b \<le> recommendationScore a)
     (take n (map recommended_of (Array_sort by_score xs)))"
proof -
  have "sorted_wrt (\<lambda>a b. score b \<le> score a) (Array_sort by_score xs)"
    by (rule sorted_Array_sort) (rule by_score_le)
  then have "sorted_wrt (\<lambda>a b. recommendationScore b \<le> recommendationScore a)
               (map recommended_of (Array_sort by_score xs))"
    by (simp add: sorted_wrt_map recommended_of_def)
  then show ?thesis by (rule sorted_wrt_take)
qed

lemma similarity_loop_ids:
  "similarity_loop cur uid es acc = Inr sims \<Longrightarrow>
     userId ` set sims \<subseteq> userId ` set acc \<union> (fst ` set es - {uid})"
proof (induction es arbitrary: acc)
  case Nil
  then show ?case by auto
next
  case (Cons e es)
  obtain otherUserId otherUserLikes where e: "e = (otherUserId, otherUserLikes)" by (cases e)
  show ?case
  proof (cases "otherUserId = uid")
    case True
    with Cons.prems e have "similarity_loop cur uid es acc = Inr sims" by simp
    from Cons.IH[OF this] show ?thesis by auto
  next
    case False
    have keys: "fst ` set (e # es) - {uid} = insert otherUserId (fst ` set es - {uid})"
      using False e by auto
    show ?thesis
    proof (cases "calculateUserSimilarity cur (Arr otherUserLikes)")
      case (Inl err)
      with Cons.prems e False show ?thesis by simp
    next
      case (Inr sim)
      show ?thesis
      proof (cases "0 < sim")
        case neg: False
        with Cons.prems e False Inr have "similarity_loop cur uid es acc = Inr sims" by simp
        from Cons.IH[OF this] show ?thesis unfolding keys by blast
      next
        case pos: True
        show ?thesis
        proof (cases "filter_of cur (\<lambda>like. like \<in> set otherUserLikes)")
          case (Inl err)
          with Cons.prems e False Inr pos show ?thesis by simp
        next
          case sh: (Inr shared)
          define entry where
            "entry = \<lparr>userId = otherUserId, similarity = sim, sharedLikes = length shared\<rparr>"
          from Cons.prems e False Inr pos sh
          have "similarity_loop cur uid es (acc @ [entry]) = Inr sims"
            by (simp add: entry_def)
          from Cons.IH[OF this]
          have "userId ` set sims \<subseteq> userId ` set (acc @ [entry]) \<union> (fst ` set es - {uid})" .
          moreover have "userId ` set (acc @ [entry]) = insert otherUserId (userId ` set acc)"
            by (simp add: entry_def)
          ultimately show ?thesis unfolding keys by blast
        qed
      qed
    qed
  qed
qed

section \<open>The returned object\<close>

lemma getRecommendations_Inr:
  assumes r: "getRecommendations uid = Inr r"
  shows "r = no_likes \<or>
         (\<exists>sims ids ps.
            similarity_loop (likes_of uid) uid (userLikes mockData) [] = Inr sims \<and>
            post_loop (likes_of uid) (take 10 (Array_sort by_similarity sims)) ([], Map.empty)
              = Inr (ids, ps) \<and>
            r = \<lparr>potentialFriends = map friend_of (take 10 (Array_sort by_similarity sims)),
                 recommendedBusinesses =
                   take 20 (map recommended_of
                              (Array_sort by_score (map snd (business_loop ids ps [])))),
                 message = None,
                 algorithm = Some ''collaborative_filtering'',
                 totalSimilarUsers = Some (length sims)\<rparr>)"
proof (cases "length_of (likes_of uid) = Some 0")
  case True
  with r show ?thesis by (simp add: getRecommendations_def)
next
  case False
  show ?thesis
  proof (cases "similarity_loop (likes_of uid) uid (userLikes mockData) []")
    case (Inl e)
    with r False show ?thesis by (simp add: getRecommendations_def)
  next
    case (Inr sims)
    show ?thesis
    proof (cases "post_loop (likes_of uid) (take 10 (Array_sort by_similarity sims))
                    ([], Map.empty)")
      case (Inl e)
      with r False Inr show ?thesis by (simp add: getRecommendations_def)
    next
      case st: (Inr st)
      obtain ids ps where st': "st = (ids, ps)" by (cases st)
      from r False Inr st st' have
        "r = \<lparr>potentialFriends = map friend_of (take 10 (Array_sort by_similarity sims)),
               recommendedBusinesses =
                 take 20 (map recommended_of
                            (Array_sort by_score (map snd (business_loop ids ps [])))),
               message = None,
               algorithm = Some ''collaborative_filtering'',
               totalSimilarUsers = Some (length sims)\<rparr>"
        by (simp add: getRecommendations_def Let_def)
      with Inr st st' show ?thesis by blast
    qed
  qed
qed

text \<open>
  C5. No self-recommendation: whenever \<open>getRecommendations(userId)\<close> returns, the
  requester's own id is not the \<open>userId\<close> of any entry of \<open>potentialFriends\<close>.
\<close>

theorem no_self_recommendation:
  "getRecommendations uid = Inr r \<Longrightarrow> uid \<notin> friend_userId ` set (potentialFriends r)"
proof -
  assume r: "getRecommendations uid = Inr r"
  from getRecommendations_Inr[OF r] show ?thesis
  proof
    assume "r = no_likes"
    then show ?thesis by (simp add: no_likes_def)
  next
    assume "\<exists>sims ids ps.
            similarity_loop (likes_of uid) uid (userLikes mockData) [] = Inr sims \<and>
            post_loop (likes_of uid) (take 10 (Array_sort by_similarity sims)) ([], Map.empty)
              = Inr (ids, ps) \<and>
            r = \<lparr>potentialFriends = map friend_of (take 10 (Array_sort by_similarity sims)),
                 recommendedBusinesses =
                   take 20 (map recommended_of
                              (Array_sort by_score (map snd (business_loop ids ps [])))),
                 message = None,
                 algorithm = Some ''collaborative_filtering'',
                 totalSimilarUsers = Some (length sims)\<rparr>"
    then obtain sims where
      sims: "similarity_loop (likes_of uid) uid (userLikes mockData) [] = Inr sims" and
      pf: "potentialFriends r = map friend_of (take 10 (Array_sort by_similarity sims))"
      by auto
    from similarity_loop_ids[OF sims] have "uid \<notin> userId ` set sims" by auto
    moreover have "set (take 10 (Array_sort by_similarity sims)) \<subseteq> set sims"
      using set_take_subset[of 10 "Array_sort by_similarity sims"]
      by (simp add: set_Array_sort)
    ultimately have "uid \<notin> userId ` set (take 10 (Array_sort by_similarity sims))"
      by blast
    then show ?thesis unfolding pf by (auto simp: friend_of_def)
  qed
qed

text \<open>
  C7. Truncation and ordering: whenever \<open>getRecommendations(userId)\<close> returns,
  \<open>potentialFriends\<close> has at most 10 entries and is sorted by descending similarity
  score, and \<open>recommendedBusinesses\<close> has at most 20 entries and is sorted by
  descending recommendation score.
\<close>

theorem truncation_and_ordering:
  "getRecommendations uid = Inr r \<Longrightarrow>
     length (potentialFriends r) \<le> 10 \<and>
     sorted_wrt (\<lambda>a b. similarityScore b \<le> similarityScore a) (potentialFriends r) \<and>
     length (recommendedBusinesses r) \<le> 20 \<and>
     sorted_wrt (\<lambda>a b. recommendationScore b \<le> recommendationScore a)
       (recommendedBusinesses r)"
proof -
  assume r: "getRecommendations uid = Inr r"
  from getRecommendations_Inr[OF r] show ?thesis
  proof
    assume "r = no_likes"
    then show ?thesis by (simp add: no_likes_def)
  next
    assume "\<exists>sims ids ps.
            similarity_loop (likes_of uid) uid (userLikes mockData) [] = Inr sims \<and>
            post_loop (likes_of uid) (take 10 (Array_sort by_similarity sims)) ([], Map.empty)
              = Inr (ids, ps) \<and>
            r = \<lparr>potentialFriends = map friend_of (take 10 (Array_sort by_similarity sims)),
                 recommendedBusinesses =
                   take 20 (map recommended_of
                              (Array_sort by_score (map snd (business_loop ids ps [])))),
                 message = None,
                 algorithm = Some ''collaborative_filtering'',
                 totalSimilarUsers = Some (length sims)\<rparr>"
    then obtain sims bs where
      pf: "potentialFriends r = map friend_of (take 10 (Array_sort by_similarity sims))" and
      rb: "recommendedBusinesses r = take 20 (map recommended_of (Array_sort by_score bs))"
      by auto
    show ?thesis unfolding pf rb
      by (simp add: friends_sorted businesses_sorted)
  qed
qed

lemma user_1_returns: "getRecommendations ''user_1'' = Inr user_1_result"
  by code_simp

lemma user_1_likes: "likes_of ''user_1'' = Arr [''post_1'', ''post_2'', ''post_3'', ''post_5'']"
  by code_simp

text \<open>
  C1, as amended. On the fixture, \<open>getRecommendations('user_1')\<close> lists \<open>user_2\<close> and
  \<open>user_4\<close>, both with similarity 0.5, before \<open>user_3\<close> with similarity 0.25, and
  recommends \<open>business_3\<close> (score 1.75), \<open>business_5\<close> (0.5) and \<open>business_4\<close>
  (0.5), in this order. \<open>business_1\<close> and \<open>business_2\<close> are not recommended:
  \<open>user_1\<close> already likes every post of theirs.
\<close>

theorem fixture_user_1:
  "getRecommendations ''user_1'' = Inr user_1_result \<and>
   friend_scores user_1_result = [(''user_2'', 1 / 2), (''user_4'', 1 / 2), (''user_3'', 1 / 4)] \<and>
   business_scores user_1_result =
     [(Some ''business_3'', 7 / 4), (Some ''business_5'', 1 / 2), (Some ''business_4'', 1 / 2)]"
  by (simp add: user_1_returns) (simp add: user_1_result_def friend_scores_def business_scores_def)

text \<open>
  C1, as stated, fails: the expectation of the specification does not hold of the object
  that \<open>getRecommendations('user_1')\<close> returns.
\<close>

theorem fixture_expectation_fails:
  "getRecommendations ''user_1'' = Inr user_1_result \<and> \<not> fixture_expectation user_1_result"
  by (simp add: user_1_returns)
     (simp add: user_1_result_def fixture_expectation_def friend_scores_def business_scores_def
        ranked_above_def)

text \<open>
  C2. The claim is that the similarity of a non-empty like-set with itself is exactly 1.
  For a like-set of two posts the function returns \<open>1 - 2^-52\<close>, which JavaScript
  prints as 0.9999999999999998: \<open>Math.sqrt(2) * Math.sqrt(2)\<close> is
  2.0000000000000004.
\<close>

theorem identical_pair_below_one:
  "calculateUserSimilarity (Arr [''post_1'', ''post_2'']) (Arr [''post_1'', ''post_2'']) =
     Inr (1 - 1 / 2 ^ 52)"
  by code_simp

text \<open>
  C4. The claim is that the similarity lies between 0 and 1 and is 0 exactly when the
  like-sets share no post. The lower bound and the zero cases hold (\<open>similarity_nonneg\<close>,
  \<open>similarity_zero_iff\<close>). The upper bound does not: for a like-set of three posts and
  itself the function returns \<open>1 + 2^-52\<close>, which JavaScript prints as
  1.0000000000000002: \<open>Math.sqrt(3) * Math.sqrt(3)\<close> is 2.9999999999999996.
\<close>

theorem identical_triple_above_one:
  "calculateUserSimilarity (Arr [''post_1'', ''post_2'', ''post_3''])
       (Arr [''post_1'', ''post_2'', ''post_3'']) =
     Inr (1 + 1 / 2 ^ 52)"
  by code_simp

text \<open>
  A user id that is neither in the user table nor the name of a property of
  \<open>Object.prototype\<close> is treated like a user without likes.
\<close>

lemma unknown_user_no_likes:
  "map_of (userLikes mockData) uid = None \<Longrightarrow> map_of Object_prototype uid = None \<Longrightarrow>
     getRecommendations uid = Inr no_likes"
  by (simp add: getRecommendations_def likes_of_def get_property_def or_else_def)

text \<open>
  C10. The claim is that a user id that is not in the user table is treated like a user
  without likes. \<open>constructor\<close> is not in the table, \<open>mockData.userLikes['constructor']\<close>
  is the function \<open>Object\<close> of length 1, and the spread of it in
  \<open>calculateUserSimilarity\<close> throws a \<open>TypeError\<close>.
\<close>

theorem inherited_name_throws:
  "map_of (userLikes mockData) ''constructor'' = None \<and>
   getRecommendations ''constructor'' = Inl TypeError"
  by code_simp

text \<open>
  A user id for which the store records no likes, and which is not the name of a property
  of \<open>Object.prototype\<close>, gets the object of the early return: empty
  \<open>potentialFriends\<close> and \<open>recommendedBusinesses\<close> and the explanatory message.
\<close>

lemma no_recorded_likes_returns:
  "stored_likes uid = [] \<Longrightarrow> map_of Object_prototype uid = None \<Longrightarrow>
     getRecommendations uid = Inr no_likes \<and>
     potentialFriends no_likes = [] \<and> recommendedBusinesses no_likes = [] \<and>
     message no_likes =
       Some ''No likes found for user. Start liking posts to get recommendations!''"
  by (auto simp: getRecommendations_def likes_of_def get_property_def or_else_def
        stored_likes_def no_likes_def split: option.splits)

text \<open>
  C8. The claim is that every user id whose like-set is empty gets, without an error, the
  object with empty \<open>potentialFriends\<close> and \<open>recommendedBusinesses\<close> and the message.
  The store records no likes for \<open>constructor\<close>, so its like-set is empty, but
  \<open>mockData.userLikes['constructor'] || []\<close> is the inherited function \<open>Object\<close>, whose
  \<open>length\<close> is 1: the early return is not taken, and the spread of the function in
  \<open>calculateUserSimilarity\<close> throws a \<open>TypeError\<close>.
\<close>

theorem no_recorded_likes_throws:
  "stored_likes ''constructor'' = [] \<and>
   likes_of ''constructor'' = Fun 1 \<and>
   getRecommendations ''constructor'' = Inl TypeError \<and>
   getRecommendations ''constructor'' \<noteq> Inr no_likes"
  by code_simp

text \<open>No self-recommendation at \<open>user_1\<close>.\<close>

theorem no_self_recommendation_witness:
  "getRecommendations ''user_1'' = Inr user_1_result \<and>
   ''user_1'' \<notin> friend_userId ` set (potentialFriends user_1_result)"
  using no_self_recommendation[OF user_1_returns] user_1_returns by simp

text \<open>Truncation and ordering at \<open>user_1\<close>.\<close>

theorem truncation_and_ordering_witness:
  "getRecommendations ''user_1'' = Inr user_1_result \<and>
   length (potentialFriends user_1_result) \<le> 10 \<and>
   sorted_wrt (\<lambda>a b. similarityScore b \<le> similarityScore a) (potentialFriends user_1_result) \<and>
   length (recommendedBusinesses user_1_result) \<le> 20 \<and>
   sorted_wrt (\<lambda>a b. recommendationScore b \<le> recommendationScore a)
     (recommendedBusinesses user_1_result)"
  using truncation_and_ordering[OF user_1_returns] user_1_returns by simp

section \<open>The loops on an array of likes\<close>

lemma calculateUserSimilarity_Arr:
  "calculateUserSimilarity (Arr A) (Arr B) = Inr (similarity_of A B)"
  by (simp add: similarity_of_def calculateUserSimilarity_arrays)

lemma similarity_loop_Arr:
  "similarity_loop (Arr likes) uid es acc =
     Inr (acc @ map (entry_of likes)
                  (filter (\<lambda>e. fst e \<noteq> uid \<and> 0 < similarity_of likes (snd e)) es))"
proof (induction es arbitrary: acc)
  case Nil
  then show ?case by simp
next
  case (Cons e es)
  obtain otherUserId otherUserLikes where e: "e = (otherUserId, otherUserLikes)" by (cases e)
  show ?case unfolding e
    by (simp add: calculateUserSimilarity_Arr Cons.IH entry_of_def)
qed

lemma similar_others_alt:
  "similar_others likes uid =
     filter (\<lambda>e. fst e \<noteq> uid \<and> 0 < similarity_of likes (snd e)) (userLikes mockData)"
  by (simp add: similar_others_def case_prod_unfold)

lemma get_property_own:
  "k \<in> fst ` set (userLikes mockData) \<Longrightarrow>
     spread (get_property (userLikes mockData) k) = Inr (stored_likes k)"
proof -
  assume "k \<in> fst ` set (userLikes mockData)"
  then obtain xs where "map_of (userLikes mockData) k = Some xs"
    by (metis map_of_eq_None_iff not_Some_eq)
  then show ?thesis by (simp add: get_property_def stored_likes_def)
qed

lemma score_in_upd: "score_in (ps(p \<mapsto> v)) q = (if q = p then v else score_in ps q)"
  by (simp add: score_in_def)

lemma set_Set_add: "set (Set_add s x) = insert x (set s)"
  by (auto simp: Set_add_def)

lemma post_loop_inner_effect:
  "\<exists>ids' ps'.
     post_loop_inner (Arr likes) sim posts (ids, ps) = Inr (ids', ps') \<and>
     set ids' = set ids \<union> (set posts - set likes) \<and>
     (\<forall>p. ps' p =
        (if p \<in> set likes \<or> p \<notin> set posts then ps p
         else Some (foldl fl_add (score_in ps p) (replicate (count_list posts p) sim))))"
proof (induction posts arbitrary: ids ps)
  case Nil
  then show ?case by simp
next
  case (Cons q rest)
  show ?case
  proof (cases "q \<in> set likes")
    case True
    from Cons.IH[of ids ps] obtain ids' ps' where
      run: "post_loop_inner (Arr likes) sim rest (ids, ps) = Inr (ids', ps')" and
      ids': "set ids' = set ids \<union> (set rest - set likes)" and
      ps': "\<And>p. ps' p =
        (if p \<in> set likes \<or> p \<notin> set rest then ps p
         else Some (foldl fl_add (score_in ps p) (replicate (count_list rest p) sim)))"
      by blast
    have "post_loop_inner (Arr likes) sim (q # rest) (ids, ps) = Inr (ids', ps')"
      using True run by simp
    moreover have "set ids' = set ids \<union> (set (q # rest) - set likes)"
      using True ids' by auto
    moreover have "\<forall>p. ps' p =
        (if p \<in> set likes \<or> p \<notin> set (q # rest) then ps p
         else Some (foldl fl_add (score_in ps p) (replicate (count_list (q # rest) p) sim)))"
      using True ps' by auto
    ultimately show ?thesis by blast
  next
    case False
    define ps1 where "ps1 = ps(q \<mapsto> fl_add (score_in ps q) sim)"
    from Cons.IH[of "Set_add ids q" ps1] obtain ids' ps' where
      run: "post_loop_inner (Arr likes) sim rest (Set_add ids q, ps1) = Inr (ids', ps')" and
      ids': "set ids' = set (Set_add ids q) \<union> (set rest - set likes)" and
      ps': "\<And>p. ps' p =
        (if p \<in> set likes \<or> p \<notin> set rest then ps1 p
         else Some (foldl fl_add (score_in ps1 p) (replicate (count_list rest p) sim)))"
      by blast
    have "post_loop_inner (Arr likes) sim (q # rest) (ids, ps) = Inr (ids', ps')"
      using False run by (simp add: ps1_def score_in_def)
    moreover have "set ids' = set ids \<union> (set (q # rest) - set likes)"
      using False ids' by (auto simp: set_Set_add)
    moreover have "\<forall>p. ps' p =
        (if p \<in> set likes \<or> p \<notin> set (q # rest) then ps p
         else Some (foldl fl_add (score_in ps p) (replicate (count_list (q # rest) p) sim)))"
    proof
      fix p
      show "ps' p =
        (if p \<in> set likes \<or> p \<notin> set (q # rest) then ps p
         else Some (foldl fl_add (score_in ps p) (replicate (count_list (q # rest) p) sim)))"
      proof (cases "p = q")
        case same: True
        show ?thesis
        proof (cases "q \<in> set rest")
          case True
          with same False ps'[of q] show ?thesis
            by (simp add: ps1_def score_in_upd)
        next
          case notin: False
          then have "count_list rest q = 0" by (simp add: count_list_0_iff)
          with same False notin ps'[of q] show ?thesis
            by (simp add: ps1_def)
        qed
      next
        case other: False
        with ps'[of p] show ?thesis by (simp add: ps1_def score_in_upd)
      qed
    qed
    ultimately show ?thesis by blast
  qed
qed

lemma contributions_Cons:
  "contributions (u # users) p =
     replicate (count_list (stored_likes (userId u)) p) (similarity u) @ contributions users p"
  by (simp add: contributions_def)

lemma contributions_Nil: "contributions [] p = []"
  by (simp add: contributions_def)

lemma post_loop_effect:
  assumes "\<forall>u \<in> set users. userId u \<in> fst ` set (userLikes mockData)"
  shows "\<exists>ids' ps'.
     post_loop (Arr likes) users (ids, ps) = Inr (ids', ps') \<and>
     set ids' = set ids \<union> {p. p \<notin> set likes \<and> contributions users p \<noteq> []} \<and>
     (\<forall>p. ps' p =
        (if p \<in> set likes \<or> contributions users p = [] then ps p
         else Some (foldl fl_add (score_in ps p) (contributions users p))))"
  using assms
proof (induction users arbitrary: ids ps)
  case Nil
  then show ?case by (simp add: contributions_Nil)
next
  case (Cons u users)
  define posts where "posts = stored_likes (userId u)"
  have sp: "spread (get_property (userLikes mockData) (userId u)) = Inr posts"
    unfolding posts_def using Cons.prems by (intro get_property_own) simp
  from post_loop_inner_effect[of likes "similarity u" posts ids ps] obtain ids1 ps1 where
    run1: "post_loop_inner (Arr likes) (similarity u) posts (ids, ps) = Inr (ids1, ps1)" and
    ids1: "set ids1 = set ids \<union> (set posts - set likes)" and
    ps1: "\<And>p. ps1 p =
        (if p \<in> set likes \<or> p \<notin> set posts then ps p
         else Some (foldl fl_add (score_in ps p)
                      (replicate (count_list posts p) (similarity u))))"
    by blast
  from Cons.prems have "\<forall>u \<in> set users. userId u \<in> fst ` set (userLikes mockData)" by simp
  from Cons.IH[OF this, of ids1 ps1] obtain ids' ps' where
    run: "post_loop (Arr likes) users (ids1, ps1) = Inr (ids', ps')" and
    ids': "set ids' = set ids1 \<union> {p. p \<notin> set likes \<and> contributions users p \<noteq> []}" and
    ps': "\<And>p. ps' p =
        (if p \<in> set likes \<or> contributions users p = [] then ps1 p
         else Some (foldl fl_add (score_in ps1 p) (contributions users p)))"
    by blast
  have empty_iff: "\<And>p. contributions (u # users) p = [] \<longleftrightarrow>
      p \<notin> set posts \<and> contributions users p = []"
    by (auto simp: contributions_Cons posts_def count_list_0_iff)
  have "post_loop (Arr likes) (u # users) (ids, ps) = Inr (ids', ps')"
    using sp run1 run by simp
  moreover have "set ids' = set ids \<union> {p. p \<notin> set likes \<and> contributions (u # users) p \<noteq> []}"
    unfolding ids' ids1 empty_iff by auto
  moreover have "\<forall>p. ps' p =
        (if p \<in> set likes \<or> contributions (u # users) p = [] then ps p
         else Some (foldl fl_add (score_in ps p) (contributions (u # users) p)))"
  proof
    fix p
    have s1: "p \<notin> set likes \<Longrightarrow> score_in ps1 p =
        foldl fl_add (score_in ps p) (replicate (count_list posts p) (similarity u))"
    proof (cases "p \<in> set posts")
      case True
      assume "p \<notin> set likes"
      with True ps1[of p] show ?thesis by (simp add: score_in_def)
    next
      case False
      then have "count_list posts p = 0" by (simp add: count_list_0_iff)
      with False ps1[of p] show ?thesis by (simp add: score_in_def)
    qed
    show "ps' p =
        (if p \<in> set likes \<or> contributions (u # users) p = [] then ps p
         else Some (foldl fl_add (score_in ps p) (contributions (u # users) p)))"
    proof (cases "p \<in> set likes")
      case True
      with ps'[of p] ps1[of p] show ?thesis by simp
    next
      case False
      show ?thesis
      proof (cases "contributions users p = []")
        case True
        with False ps'[of p] ps1[of p] show ?thesis
          by (auto simp: empty_iff contributions_Cons posts_def count_list_0_iff)
      next
        case rest: False
        with False ps'[of p] s1[OF False] show ?thesis
          by (simp add: empty_iff contributions_Cons posts_def)
      qed
    qed
  qed
  ultimately show ?case by blast
qed

lemma post_loop_scored:
  assumes "\<forall>u \<in> set users. userId u \<in> fst ` set (userLikes mockData)"
    and "post_loop (Arr likes) users ([], Map.empty) = Inr (ids, ps)"
  shows "\<forall>p \<in> set ids. ps p \<noteq> None"
proof -
  from post_loop_effect[OF assms(1), of likes "[]" Map.empty] assms(2)
  have ids: "set ids = set [] \<union> {p. p \<notin> set likes \<and> contributions users p \<noteq> []}"
    and ps: "\<And>p. ps p =
        (if p \<in> set likes \<or> contributions users p = [] then Map.empty p
         else Some (foldl fl_add (score_in Map.empty p) (contributions users p)))"
    by auto
  show ?thesis
  proof
    fix p
    assume "p \<in> set ids"
    with ids have "p \<notin> set likes" "contributions users p \<noteq> []" by auto
    with ps[of p] show "ps p \<noteq> None" by simp
  qed
qed

lemma business_loop_scores:
  assumes "\<forall>item \<in> snd ` set bs.
             score item = foldl fl_add 0 (map (score_in ps) (recommendedPosts item)) \<and>
             set (recommendedPosts item) \<subseteq> S"
      and "set ids \<subseteq> S"
  shows "\<forall>item \<in> snd ` set (business_loop ids ps bs).
             score item = foldl fl_add 0 (map (score_in ps) (recommendedPosts item)) \<and>
             set (recommendedPosts item) \<subseteq> S"
  using assms
proof (induction ids arbitrary: bs)
  case Nil
  then show ?case by simp
next
  case (Cons postId rest)
  from Cons.prems have rest: "set rest \<subseteq> S" and postId: "postId \<in> S" by auto
  show ?case
  proof (cases "map_of (postBusinessMap mockData) postId")
    case None
    with Cons.IH[OF Cons.prems(1) rest] show ?thesis by simp
  next
    case (Some businessId)
    show ?thesis
    proof (cases "businessId = []")
      case True
      with Some Cons.IH[OF Cons.prems(1) rest] show ?thesis by simp
    next
      case False
      define created where
        "created =
           (if map_of bs businessId = None
            then bs @ [(businessId,
                        \<lparr>business = map_of (businesses mockData) businessId,
                         score = 0, recommendedPosts = []\<rparr>)]
            else bs)"
      define added where
        "added =
           map (\<lambda>(k, item).
                  if k = businessId
                  then (k, item\<lparr>score := fl_add (score item) (score_in ps postId),
                                recommendedPosts := recommendedPosts item @ [postId]\<rparr>)
                  else (k, item))
             created"
      have step: "business_loop (postId # rest) ps bs = business_loop rest ps added"
        by (simp only: business_loop.simps Some option.case False if_False Let_def
              created_def added_def score_in_def)
      have c: "\<forall>item \<in> snd ` set created.
                 score item = foldl fl_add 0 (map (score_in ps) (recommendedPosts item)) \<and>
                 set (recommendedPosts item) \<subseteq> S"
        using Cons.prems(1) by (auto simp: created_def)
      have a: "\<forall>item \<in> snd ` set added.
                 score item = foldl fl_add 0 (map (score_in ps) (recommendedPosts item)) \<and>
                 set (recommendedPosts item) \<subseteq> S"
      proof
        fix item
        assume "item \<in> snd ` set added"
        then obtain k old where old: "(k, old) \<in> set created" and
          item: "item = (if k = businessId
                         then old\<lparr>score := fl_add (score old) (score_in ps postId),
                                  recommendedPosts := recommendedPosts old @ [postId]\<rparr>
                         else old)"
          by (auto simp: added_def split: if_splits)
        from old c have o: "score old = foldl fl_add 0 (map (score_in ps) (recommendedPosts old))"
          "set (recommendedPosts old) \<subseteq> S"
          by force+
        show "score item = foldl fl_add 0 (map (score_in ps) (recommendedPosts item)) \<and>
              set (recommendedPosts item) \<subseteq> S"
          using o postId by (simp add: item)
      qed
      from Cons.IH[OF a rest] show ?thesis unfolding step .
    qed
  qed
qed

lemma similar_users_stored:
  assumes "similarity_loop cur uid (userLikes mockData) [] = Inr sims"
  shows "\<forall>u \<in> set (take n (Array_sort by_similarity sims)).
           userId u \<in> fst ` set (userLikes mockData)"
proof
  fix u
  assume "u \<in> set (take n (Array_sort by_similarity sims))"
  then have "u \<in> set sims"
    using set_take_subset[of n "Array_sort by_similarity sims"] by (auto simp: set_Array_sort)
  with similarity_loop_ids[OF assms] show "userId u \<in> fst ` set (userLikes mockData)"
    by auto
qed

lemma getRecommendations_Arr:
  assumes likes: "likes_of uid = Arr likes" and ne: "likes \<noteq> []"
    and sims: "similarity_loop (Arr likes) uid (userLikes mockData) [] = Inr sims"
    and post: "post_loop (Arr likes) (take 10 (Array_sort by_similarity sims)) ([], Map.empty)
                 = Inr (ids, ps)"
  shows "getRecommendations uid =
     Inr \<lparr>potentialFriends = map friend_of (take 10 (Array_sort by_similarity sims)),
          recommendedBusinesses =
            take 20 (map recommended_of
                       (Array_sort by_score (map snd (business_loop ids ps [])))),
          message = None,
          algorithm = Some ''collaborative_filtering'',
          totalSimilarUsers = Some (length sims)\<rparr>"
  using ne by (simp add: getRecommendations_def likes sims post Let_def)

text \<open>
  C9, as amended. For every user id whose like-set is a non-empty array,
  \<open>getRecommendations\<close> returns an object with the algorithm tag
  \<open>collaborative_filtering\<close> and with \<open>totalSimilarUsers\<close> equal to the number of
  other users of the store whose similarity is strictly greater than 0, counted before the
  truncation to ten.
\<close>

theorem result_envelope:
  assumes likes: "likes_of uid = Arr likes" and ne: "likes \<noteq> []"
  shows "\<exists>r. getRecommendations uid = Inr r \<and>
             algorithm r = Some ''collaborative_filtering'' \<and>
             totalSimilarUsers r = Some (length (similar_others likes uid))"
proof -
  define sims where
    "sims = map (entry_of likes) (similar_others likes uid)"
  have sims: "similarity_loop (Arr likes) uid (userLikes mockData) [] = Inr sims"
    by (simp add: similarity_loop_Arr sims_def similar_others_alt)
  from post_loop_effect[OF similar_users_stored[OF sims, of 10], of likes "[]" Map.empty]
  obtain ids ps where
    "post_loop (Arr likes) (take 10 (Array_sort by_similarity sims)) ([], Map.empty)
       = Inr (ids, ps)"
    by blast
  from getRecommendations_Arr[OF likes ne sims this] show ?thesis
    by (simp add: sims_def)
qed

text \<open>
  C6. Already-liked exclusion: for every requester with a non-empty array of likes, the
  two loops return, no post of the requester is in \<open>recommendedPostIds\<close> or has a score in
  \<open>postScores\<close>, the score of every other post is the sum, in the program's arithmetic and
  in the order of the similar users, of the similarity scores of the top similar users that
  like it, and the score of every scored business is the sum of the scores of its
  recommended posts, none of which the requester likes. \<open>recommendedBusinesses\<close> is made
  of these scored businesses.
\<close>

theorem already_liked_exclusion:
  assumes likes: "likes_of uid = Arr likes" and ne: "likes \<noteq> []"
  shows "\<exists>sims users ids ps r.
      similarity_loop (Arr likes) uid (userLikes mockData) [] = Inr sims \<and>
      users = take 10 (Array_sort by_similarity sims) \<and>
      post_loop (Arr likes) users ([], Map.empty) = Inr (ids, ps) \<and>
      getRecommendations uid = Inr r \<and>
      recommendedBusinesses r =
        take 20 (map recommended_of
                   (Array_sort by_score (map snd (business_loop ids ps [])))) \<and>
      set ids \<inter> set likes = {} \<and>
      (\<forall>p. ps p =
         (if p \<in> set likes \<or> contributions users p = [] then None
          else Some (foldl fl_add 0 (contributions users p)))) \<and>
      (\<forall>item \<in> snd ` set (business_loop ids ps []).
         set (recommendedPosts item) \<inter> set likes = {} \<and>
         score item = foldl fl_add 0 (map (score_in ps) (recommendedPosts item)))"
proof -
  define sims where
    "sims = map (entry_of likes) (similar_others likes uid)"
  define users where "users = take 10 (Array_sort by_similarity sims)"
  have sims: "similarity_loop (Arr likes) uid (userLikes mockData) [] = Inr sims"
    by (simp add: similarity_loop_Arr sims_def similar_others_alt)
  from post_loop_effect[OF similar_users_stored[OF sims, of 10], of likes "[]" Map.empty]
  obtain ids ps where
    post: "post_loop (Arr likes) users ([], Map.empty) = Inr (ids, ps)" and
    ids: "set ids = set [] \<union> {p. p \<notin> set likes \<and> contributions users p \<noteq> []}" and
    ps: "\<And>p. ps p =
        (if p \<in> set likes \<or> contributions users p = [] then Map.empty p
         else Some (foldl fl_add (score_in Map.empty p) (contributions users p)))"
    unfolding users_def by blast
  have r: "getRecommendations uid =
     Inr \<lparr>potentialFriends = map friend_of users,
          recommendedBusinesses =
            take 20 (map recommended_of
                       (Array_sort by_score (map snd (business_loop ids ps [])))),
          message = None,
          algorithm = Some ''collaborative_filtering'',
          totalSimilarUsers = Some (length sims)\<rparr>"
    using getRecommendations_Arr[OF likes ne sims post[unfolded users_def]]
    by (simp add: users_def)
  have disj: "set ids \<inter> set likes = {}" using ids by auto
  have ps': "\<forall>p. ps p =
         (if p \<in> set likes \<or> contributions users p = [] then None
          else Some (foldl fl_add 0 (contributions users p)))"
    using ps by (simp add: score_in_def)
  have "\<forall>item \<in> snd ` set (business_loop ids ps []).
          score item = foldl fl_add 0 (map (score_in ps) (recommendedPosts item)) \<and>
          set (recommendedPosts item) \<subseteq> set ids"
    by (rule business_loop_scores) simp_all
  with disj have bs: "\<forall>item \<in> snd ` set (business_loop ids ps []).
         set (recommendedPosts item) \<inter> set likes = {} \<and>
         score item = foldl fl_add 0 (map (score_in ps) (recommendedPosts item))"
    by blast
  show ?thesis
    apply (rule exI[of _ sims], rule exI[of _ users], rule exI[of _ ids], rule exI[of _ ps])
    apply (rule exI)
    apply (intro conjI)
           apply (rule sims)
          apply (rule users_def)
         apply (rule post)
        apply (rule r)
       apply simp
      apply (rule disj)
     apply (rule ps')
    apply (rule bs)
    done
qed

lemma user_9_returns: "getRecommendations ''user_9'' = Inr no_likes"
  by code_simp

lemma user_1_similar_others:
  "length (similar_others [''post_1'', ''post_2'', ''post_3'', ''post_5''] ''user_1'') = 3"
  by code_simp

text \<open>
  The objects \<open>postBusinessMap\<close>, \<open>businesses\<close>, \<open>postScores\<close> and
  \<open>businessScores\<close> are read with post ids and business ids of the store only, and none
  of these is the name of a property of \<open>Object.prototype\<close>: the reads find own
  properties or nothing.
\<close>

lemma mock_ids_not_inherited:
  "list_all (\<lambda>k. map_of Object_prototype k = None)
     (concat (map snd (userLikes mockData)) @ map fst (postBusinessMap mockData) @
      map snd (postBusinessMap mockData) @ map fst (businesses mockData))"
  by code_simp

text \<open>The envelope at \<open>user_1\<close>: three other users have a positive similarity.\<close>

theorem result_envelope_witness:
  "likes_of ''user_1'' = Arr [''post_1'', ''post_2'', ''post_3'', ''post_5''] \<and>
   [''post_1'', ''post_2'', ''post_3'', ''post_5''] \<noteq> [] \<and>
   (\<exists>r. getRecommendations ''user_1'' = Inr r \<and>
        algorithm r = Some ''collaborative_filtering'' \<and>
        totalSimilarUsers r = Some 3)"
  using result_envelope[OF user_1_likes] user_1_likes user_1_similar_others by simp

text \<open>
  C9, as stated for every user id, fails: the object returned for a user without likes has
  neither the algorithm tag nor \<open>totalSimilarUsers\<close>.
\<close>

theorem no_likes_envelope:
  "getRecommendations ''user_9'' = Inr no_likes \<and>
   algorithm no_likes = None \<and> totalSimilarUsers no_likes = None"
  by (simp add: user_9_returns) (simp add: no_likes_def)

text \<open>The exclusion at \<open>user_1\<close>.\<close>

theorem already_liked_exclusion_witness:
  "likes_of ''user_1'' = Arr [''post_1'', ''post_2'', ''post_3'', ''post_5''] \<and>
   [''post_1'', ''post_2'', ''post_3'', ''post_5''] \<noteq> [] \<and>
   (\<exists>sims users ids ps r.
      similarity_loop (Arr [''post_1'', ''post_2'', ''post_3'', ''post_5'']) ''user_1''
        (userLikes mockData) [] = Inr sims \<and>
      users = take 10 (Array_sort by_similarity sims) \<and>
      post_loop (Arr [''post_1'', ''post_2'', ''post_3'', ''post_5'']) users ([], Map.empty)
        = Inr (ids, ps) \<and>
      getRecommendations ''user_1'' = Inr r \<and>
      recommendedBusinesses r =
        take 20 (map recommended_of
                   (Array_sort by_score (map snd (business_loop ids ps [])))) \<and>
      set ids \<inter> set [''post_1'', ''post_2'', ''post_3'', ''post_5''] = {} \<and>
      (\<forall>p. ps p =
         (if p \<in> set [''post_1'', ''post_2'', ''post_3'', ''post_5''] \<or>
             contributions users p = [] then None
          else Some (foldl fl_add 0 (contributions users p)))) \<and>
      (\<forall>item \<in> snd ` set (business_loop ids ps []).
         set (recommendedPosts item) \<inter> set [''post_1'', ''post_2'', ''post_3'', ''post_5''] = {} \<and>
         score item = foldl fl_add 0 (map (score_in ps) (recommendedPosts item))))"
  by (rule conjI[OF user_1_likes conjI[OF _ already_liked_exclusion[OF user_1_likes]]]) simp_all

end
